theory Spec2Isabelle
  imports Main "HOL-Library.Sublist"
begin

section \<open>The proxy rule of the development server configuration\<close>

text \<open>
  The configuration file \<^verbatim>\<open>vite.config.ts\<close> declares one proxy rule:
  \<^verbatim>\<open>
  server: {
    proxy: {
      '/api': {
        target: 'https://tczswboifjsccnvhzq2vng2xm40kmrfb.lambda-url.ap-south-1.on.aws',
        changeOrigin: true,
        rewrite: (path) => path.replace(/^\/api/, ''),
        secure: true,
      },
    },
  },
  \<close>
  The only code of the rule is the arrow function \<^verbatim>\<open>rewrite\<close>. It calls
  \<^verbatim>\<open>String.prototype.replace\<close> with a regular expression literal, so the embedding
  starts with the regular expression machinery of the language, restricted to the
  pattern syntax the literal uses (the assertion \<^verbatim>\<open>^\<close> and pattern characters), and
  then gives the rule itself.

  A string is a list of code units; the machinery is polymorphic in the code unit
  \<open>'c\<close>, and the rule works on \<^typ>\<open>string\<close>.
\<close>

subsection \<open>Patterns and regular expression objects\<close>

text \<open>
  The pattern \<^verbatim>\<open>^\/api\<close> is a sequence of five terms: the assertion \<^verbatim>\<open>^\<close> and the
  pattern characters \<^verbatim>\<open>/\<close> (written with an identity escape), \<^verbatim>\<open>a\<close>, \<^verbatim>\<open>p\<close>,
  \<^verbatim>\<open>i\<close>.
\<close>

datatype 'c atom = LineStart | PatternChar 'c

text \<open>
  A regular expression object carries its pattern, its flags and the mutable property
  \<^verbatim>\<open>lastIndex\<close>. Of the flags, \<^verbatim>\<open>g\<close> and \<^verbatim>\<open>y\<close> decide how \<^verbatim>\<open>lastIndex\<close> is read
  and written; the flags \<^verbatim>\<open>i\<close>, \<^verbatim>\<open>m\<close>, \<^verbatim>\<open>s\<close> and \<^verbatim>\<open>u\<close> are off throughout (the
  literal of the configuration has no flag), so \<^verbatim>\<open>^\<close> holds at the start of the input
  only and characters are compared as they are.
\<close>

record 'c regexp =
  source :: "'c atom list"
  global :: bool
  sticky :: bool
  lastIndex :: nat

text \<open>
  The matcher of a pattern, run on the input \<open>S\<close> from the index \<open>e\<close>: the end index of
  the match, or \<open>None\<close> for failure. A pattern character fails at the end of the input
  (the index never passes the end: the test is written so that no code unit is read
  out of range).
\<close>

fun matcher :: "'c atom list \<Rightarrow> 'c list \<Rightarrow> nat \<Rightarrow> nat option" where
  "matcher [] S e = Some e"
| "matcher (LineStart # ps) S e = (if e = 0 then matcher ps S e else None)"
| "matcher (PatternChar c # ps) S e =
     (if length S \<le> e then None
      else if S ! e \<noteq> c then None
      else matcher ps S (Suc e))"

text \<open>
  The loop of \<^verbatim>\<open>RegExpBuiltinExec\<close>: try the matcher at \<open>i\<close>; on failure give up when
  the expression is sticky, and move one code unit forward otherwise; past the end of
  the input there is no match. The result is the index and the end index of the match.
\<close>

function exec_loop :: "'c atom list \<Rightarrow> bool \<Rightarrow> 'c list \<Rightarrow> nat \<Rightarrow> (nat \<times> nat) option" where
  "exec_loop ps stky S i =
     (if length S < i then None
      else case matcher ps S i of
             None \<Rightarrow> if stky then None else exec_loop ps stky S (Suc i)
           | Some e \<Rightarrow> Some (i, e))"
  by pat_completeness auto
termination
  by (relation "measure (\<lambda>(ps, stky, S, i). Suc (length S) - i)") auto

declare exec_loop.simps [simp del]

text \<open>
  \<^verbatim>\<open>RegExpBuiltinExec(R, S)\<close>, with the object \<open>R\<close> passed in and returned: the search
  starts at \<^verbatim>\<open>lastIndex\<close> when \<^verbatim>\<open>g\<close> or \<^verbatim>\<open>y\<close> is set and at 0 otherwise, and
  \<^verbatim>\<open>lastIndex\<close> is written (the end of the match, or 0 on failure) only when \<^verbatim>\<open>g\<close> or
  \<^verbatim>\<open>y\<close> is set.
\<close>

definition regExpBuiltinExec :: "'c regexp \<Rightarrow> 'c list \<Rightarrow> (nat \<times> nat) option \<times> 'c regexp" where
  "regExpBuiltinExec R S =
     (let flagged = (global R \<or> sticky R);
          start = (if flagged then lastIndex R else 0)
      in case exec_loop (source R) (sticky R) S start of
           None \<Rightarrow> (None, if flagged then R\<lparr>lastIndex := 0\<rparr> else R)
         | Some (i, e) \<Rightarrow> (Some (i, e), if flagged then R\<lparr>lastIndex := e\<rparr> else R))"

subsection \<open>Replacing\<close>

text \<open>
  \<^verbatim>\<open>RegExp.prototype[Symbol.replace]\<close> first collects the matches: one call of the
  exec operation when \<^verbatim>\<open>g\<close> is off, and repeated calls when it is on, stepping
  \<^verbatim>\<open>lastIndex\<close> by one after an empty match.
\<close>

function collect_results :: "'c regexp \<Rightarrow> 'c list \<Rightarrow> (nat \<times> nat) list \<times> 'c regexp" where
  "collect_results rx S =
     (case regExpBuiltinExec rx S of
        (None, rx') \<Rightarrow> ([], rx')
      | (Some (position, e), rx') \<Rightarrow>
          if \<not> global rx' then ([(position, e)], rx')
          else let rx'' = (if e = position then rx'\<lparr>lastIndex := Suc (lastIndex rx')\<rparr> else rx');
                   (results, rx''') = collect_results rx'' S
               in ((position, e) # results, rx'''))"
  by pat_completeness auto
termination
proof (relation "measure (\<lambda>(rx, S). Suc (length S) - lastIndex rx)", goal_cases)
  case 1
  show ?case by simp
next
  case (2 rx S r rx' m position e rx'')
  have mono: "i \<le> e'" if "matcher ps T i = Some e'" for ps T i e'
    using that by (induction ps T i rule: matcher.induct) (auto split: if_splits)
  have bounds: "i \<le> p \<and> p \<le> e' \<and> p \<le> length T"
    if "exec_loop ps stky T i = Some (p, e')" for ps stky T i p e'
    using that
  proof (induction ps stky T i rule: exec_loop.induct)
    case (1 ps stky T i)
    show ?case
    proof (cases "matcher ps T i")
      case None
      with "1.prems" have ns: "\<not> stky" and le: "\<not> length T < i"
        and again: "exec_loop ps stky T (Suc i) = Some (p, e')"
        by (auto simp: exec_loop.simps [of ps stky T i] split: if_splits)
      from "1.IH" [OF le None ns again] show ?thesis by simp
    next
      case (Some e'')
      with "1.prems" have "p = i" "e' = e''" "\<not> length T < i"
        by (auto simp: exec_loop.simps [of ps stky T i] split: if_splits)
      with Some mono [of ps T i e''] show ?thesis by simp
    qed
  qed
  from 2 have ex: "regExpBuiltinExec rx S = (Some (position, e), rx')" and g: "global rx'"
    by simp_all
  from ex g have "lastIndex rx \<le> length S \<and> lastIndex rx \<le> position \<and> position \<le> e
      \<and> lastIndex rx' = e"
    using bounds [of "source rx" "sticky rx" S "lastIndex rx" position e]
    by (auto simp: regExpBuiltinExec_def Let_def split: option.splits if_splits)
  with 2 show ?case
    by (auto split: if_splits)
qed

declare collect_results.simps [simp del]

text \<open>
  Then the result is put together from the matches, left to right: the part of \<open>S\<close>
  before each match, then the replacement, and at the end the rest of \<open>S\<close>. The
  replacement is taken as it is (the one of the configuration is empty, so it has no
  \<^verbatim>\<open>$\<close> pattern to expand).
\<close>

fun assemble :: "'c list \<Rightarrow> 'c list \<Rightarrow> (nat \<times> nat) list \<Rightarrow> nat \<Rightarrow> 'c list \<Rightarrow> 'c list" where
  "assemble S replacement [] nextSourcePosition accumulatedResult =
     (if length S \<le> nextSourcePosition then accumulatedResult
      else accumulatedResult @ drop nextSourcePosition S)"
| "assemble S replacement ((index, e) # results) nextSourcePosition accumulatedResult =
     (let position = max (min index (length S)) 0
      in if nextSourcePosition \<le> position
         then assemble S replacement results e
                (accumulatedResult
                  @ take (position - nextSourcePosition) (drop nextSourcePosition S)
                  @ replacement)
         else assemble S replacement results nextSourcePosition accumulatedResult)"

definition regexp_replace :: "'c regexp \<Rightarrow> 'c list \<Rightarrow> 'c list \<Rightarrow> 'c list \<times> 'c regexp" where
  "regexp_replace rx S replaceValue =
     (let rx0 = (if global rx then rx\<lparr>lastIndex := 0\<rparr> else rx);
          (results, rx') = collect_results rx0 S
      in (assemble S replaceValue results 0 [], rx'))"

text \<open>
  \<^verbatim>\<open>S.replace(searchValue, replaceValue)\<close> with a regular expression as search value
  hands over to the method above. The new string is returned together with the
  regular expression object as the call leaves it.
\<close>

definition replace :: "'c list \<Rightarrow> 'c regexp \<Rightarrow> 'c list \<Rightarrow> 'c list \<times> 'c regexp" where
  "replace S searchValue replaceValue = regexp_replace searchValue S replaceValue"

subsection \<open>The rule\<close>

record proxy_options =
  target :: string
  changeOrigin :: bool
  rewrite :: "string \<Rightarrow> string"
  secure :: bool

text \<open>
  The literal \<^verbatim>\<open>/^\/api/\<close>. Evaluating a literal makes a new object, with \<^verbatim>\<open>lastIndex\<close>
  0.
\<close>

definition api_regexp :: "char regexp" where
  "api_regexp =
     \<lparr>source = [LineStart, PatternChar CHR ''/'', PatternChar CHR ''a'',
                PatternChar CHR ''p'', PatternChar CHR ''i''],
      global = False, sticky = False, lastIndex = 0\<rparr>"

text \<open>
  The options of the rule. The arrow function \<^verbatim>\<open>rewrite\<close> returns the string and drops
  the regular expression object of its literal.
\<close>

definition api_options :: proxy_options where
  "api_options =
     \<lparr>target = ''https://tczswboifjsccnvhzq2vng2xm40kmrfb.lambda-url.ap-south-1.on.aws'',
      changeOrigin = True,
      rewrite = (\<lambda>path. fst (replace path api_regexp '''')),
      secure = True\<rparr>"

text \<open>The table \<^verbatim>\<open>server.proxy\<close>: its keys are the prefixes, in the order written.\<close>

definition server_proxy :: "(string \<times> proxy_options) list" where
  "server_proxy = [(''/api'', api_options)]"

subsection \<open>Matching\<close>

text \<open>
  The predicate that decides whether a request is taken by a rule, and the step that
  applies the rule's \<^verbatim>\<open>rewrite\<close> to a matched request, belong to the proxy middleware
  of the development server, which is not among the sources. The three definitions
  of this subsection follow the words of the spec instead.
\<close>

text \<open>
  Modelled from the spec: the string test behind ``its path starts with \<^verbatim>\<open>prefix\<close>''
  (the middleware that performs it is missing): \<open>S\<close> is at least as long as
  \<open>searchString\<close> and begins with its code units.
\<close>

definition startsWith :: "'c list \<Rightarrow> 'c list \<Rightarrow> bool" where
  "startsWith S searchString =
     (if length S < length searchString then False
      else take (length searchString) S = searchString)"

text \<open>
  Modelled from the spec: the match predicate of a rule (the middleware that evaluates
  it is missing). ``A request matches if its path starts with \<^verbatim>\<open>prefix\<close>.''
\<close>

definition matches :: "string \<Rightarrow> string \<Rightarrow> bool" where
  "matches pfx path = startsWith path pfx"

text \<open>
  Modelled from the spec: the path that a table of rules forwards for a request (the
  middleware that walks the table is missing). ``Non-matching requests are not
  touched by this rule'' (\<open>None\<close>), and ``the matched path has the leading \<^verbatim>\<open>prefix\<close>
  removed [...] before being appended to \<^verbatim>\<open>target\<close>'', by the \<^verbatim>\<open>rewrite\<close> of the rule,
  ``applied once per request''.
\<close>

fun upstream_path :: "(string \<times> proxy_options) list \<Rightarrow> string \<Rightarrow> string option" where
  "upstream_path [] path = None"
| "upstream_path ((pfx, opts) # rules) path =
     (if matches pfx path then Some (rewrite opts path) else upstream_path rules path)"

section \<open>The regular expression of the rule\<close>

text \<open>A run of pattern characters matches at \<open>e\<close> exactly when it is a prefix of the rest.\<close>

lemma matcher_chars:
  "matcher (map PatternChar cs) S e =
     (if prefix cs (drop e S) then Some (e + length cs) else None)"
proof (induction cs arbitrary: e)
  case Nil
  show ?case by simp
next
  case (Cons c cs)
  show ?case
  proof (cases "e < length S")
    case True
    then have d: "drop e S = S ! e # drop (Suc e) S"
      by (simp add: Cons_nth_drop_Suc)
    from True show ?thesis by (simp add: Cons.IH d)
  next
    case False
    then show ?thesis by simp
  qed
qed

text \<open>A pattern that begins with \<^verbatim>\<open>^\<close> matches nowhere but at index 0.\<close>

lemma exec_loop_LineStart: "0 < i \<Longrightarrow> exec_loop (LineStart # ps) stky S i = None"
proof (induction "LineStart # ps" stky S i rule: exec_loop.induct)
  case (1 stky S i)
  then show ?case
    by (simp add: exec_loop.simps [of "LineStart # ps" stky S i])
qed

lemma api_source: "source api_regexp = LineStart # map PatternChar ''/api''"
  by (simp add: api_regexp_def)

lemma exec_loop_api:
  "exec_loop (source api_regexp) False S 0 = (if prefix ''/api'' S then Some (0, 4) else None)"
  by (simp add: api_source exec_loop.simps [of _ _ S 0] matcher_chars exec_loop_LineStart
      del: list.map)

text \<open>
  With both flags off, the exec operation neither reads nor writes \<^verbatim>\<open>lastIndex\<close>.
\<close>

lemma exec_api:
  "regExpBuiltinExec (api_regexp\<lparr>lastIndex := k\<rparr>) S =
     (if prefix ''/api'' S then Some (0, 4) else None, api_regexp\<lparr>lastIndex := k\<rparr>)"
  using exec_loop_api [of S]
  by (simp add: regExpBuiltinExec_def api_regexp_def)

lemma collect_api:
  "collect_results (api_regexp\<lparr>lastIndex := k\<rparr>) S =
     (if prefix ''/api'' S then [(0, 4)] else [], api_regexp\<lparr>lastIndex := k\<rparr>)"
  by (subst collect_results.simps) (simp add: exec_api, simp add: api_regexp_def)

lemma replace_api:
  "replace S (api_regexp\<lparr>lastIndex := k\<rparr>) r =
     (if prefix ''/api'' S then r @ drop 4 S else S, api_regexp\<lparr>lastIndex := k\<rparr>)"
proof -
  have g: "\<not> global (api_regexp\<lparr>lastIndex := k\<rparr>)"
    by (simp add: api_regexp_def)
  show ?thesis
    by (simp add: replace_def regexp_replace_def g collect_api)
qed

lemma rewrite_eq: "rewrite api_options p = (if prefix ''/api'' p then drop 4 p else p)"
proof -
  have "api_regexp\<lparr>lastIndex := 0\<rparr> = api_regexp"
    by (simp add: api_regexp_def)
  with replace_api [of p 0 "''''"] show ?thesis
    by (simp add: api_options_def)
qed

lemma matches_prefix: "matches pfx path = prefix pfx path"
proof
  assume "matches pfx path"
  then have "take (length pfx) path = pfx"
    by (simp add: matches_def startsWith_def split: if_splits)
  then show "prefix pfx path"
    by (metis take_is_prefix)
next
  assume "prefix pfx path"
  then obtain rest where "path = pfx @ rest" ..
  then show "matches pfx path"
    by (simp add: matches_def startsWith_def)
qed

section \<open>The rewrite on matched paths\<close>

text \<open>
  C1. For every request path \<open>p\<close> that starts with the prefix \<^verbatim>\<open>/api\<close>, the rewrite
  returns \<open>p\<close> with that leading prefix removed once and nothing else changed: putting
  the prefix back in front of the result gives \<open>p\<close> again. In particular
  \<^verbatim>\<open>/api/scan\<close> becomes \<^verbatim>\<open>/scan\<close> and \<^verbatim>\<open>/api\<close> becomes the empty path.
\<close>

theorem rewrite_removes_prefix_once:
  assumes "prefix ''/api'' p"
  shows "''/api'' @ rewrite api_options p = p
    \<and> rewrite api_options p = drop (length ''/api'') p
    \<and> rewrite api_options ''/api/scan'' = ''/scan''
    \<and> rewrite api_options ''/api'' = ''''"
proof -
  from assms obtain rest where p: "p = ''/api'' @ rest" ..
  have "rewrite api_options p = rest"
    unfolding p by (simp add: rewrite_eq)
  with p have general: "''/api'' @ rewrite api_options p = p"
    "rewrite api_options p = drop (length ''/api'') p"
    by simp_all
  have scan: "rewrite api_options ''/api/scan'' = ''/scan''"
    by (simp add: rewrite_eq)
  have root: "rewrite api_options ''/api'' = ''''"
    by (simp add: rewrite_eq)
  from general scan root show ?thesis by simp
qed

theorem rewrite_removes_prefix_once_witness:
  "prefix ''/api'' ''/api/api/scan''
    \<and> rewrite api_options ''/api/api/scan'' = ''/api/scan''"
proof -
  have h: "prefix ''/api'' ''/api/api/scan''" by simp
  from rewrite_removes_prefix_once [OF h] h show ?thesis by simp
qed

section \<open>Paths outside the prefix\<close>

text \<open>
  C2. For every request path \<open>p\<close> that does not start with the prefix \<^verbatim>\<open>/api\<close>, the rule
  does not take the request: the match predicate is false for \<open>p\<close> and no rule of the
  table forwards it; and the rewrite, applied to \<open>p\<close>, returns \<open>p\<close> unchanged.
\<close>

theorem unmatched_path_passes_through:
  assumes "\<not> prefix ''/api'' p"
  shows "\<not> matches ''/api'' p
    \<and> upstream_path server_proxy p = None
    \<and> rewrite api_options p = p"
proof -
  from assms have no_match: "\<not> matches ''/api'' p"
    by (simp only: matches_prefix not_False_eq_True)
  then have "upstream_path server_proxy p = None"
    by (simp add: server_proxy_def)
  moreover from assms have "rewrite api_options p = p"
    by (simp add: rewrite_eq)
  ultimately show ?thesis using no_match by simp
qed

theorem unmatched_path_passes_through_witness:
  "\<not> prefix ''/api'' ''/ap/index.html''
    \<and> \<not> matches ''/api'' ''/ap/index.html''
    \<and> upstream_path server_proxy ''/ap/index.html'' = None
    \<and> rewrite api_options ''/ap/index.html'' = ''/ap/index.html''"
proof -
  have h: "\<not> prefix ''/api'' ''/ap/index.html''" by simp
  from unmatched_path_passes_through [OF h] h show ?thesis by simp
qed

section \<open>The rewrite depends on its argument only\<close>

text \<open>
  C3. The rewrite is a pure, deterministic string transform. The one object it works
  with is the regular expression of its literal, whose \<^verbatim>\<open>lastIndex\<close> is the only state
  the replacement could read or leave behind. Whatever that property holds, the
  replacement returns what \<^verbatim>\<open>rewrite\<close> returns and leaves the object as it was; so a
  second application to the same path, on the object the first one left, returns the
  same string.
\<close>

theorem rewrite_pure_deterministic:
  "replace p (api_regexp\<lparr>lastIndex := k\<rparr>) '''' =
      (rewrite api_options p, api_regexp\<lparr>lastIndex := k\<rparr>)
    \<and> fst (replace p (snd (replace p (api_regexp\<lparr>lastIndex := k\<rparr>) '''')) '''') =
      fst (replace p (api_regexp\<lparr>lastIndex := k\<rparr>) '''')
    \<and> fst (replace p (api_regexp\<lparr>lastIndex := k\<rparr>) '''') =
      fst (replace p (api_regexp\<lparr>lastIndex := k'\<rparr>) '''')"
proof -
  have one: "replace p (api_regexp\<lparr>lastIndex := j\<rparr>) '''' =
      (rewrite api_options p, api_regexp\<lparr>lastIndex := j\<rparr>)" for j
    by (simp add: replace_api rewrite_eq)
  then have left: "snd (replace p (api_regexp\<lparr>lastIndex := k\<rparr>) '''') =
      api_regexp\<lparr>lastIndex := k\<rparr>"
    by simp
  show ?thesis
    unfolding left by (simp add: one)
qed

section \<open>The rewrite as a suffix\<close>

text \<open>
  C9. For every string \<open>p\<close>, the result of the rewrite is a suffix of \<open>p\<close>: it is \<open>p\<close>
  itself when \<open>p\<close> does not start with \<^verbatim>\<open>/api\<close>, and \<open>p\<close> without its four leading
  characters \<^verbatim>\<open>/api\<close> when it does. The rewrite is defined on every string, never
  returns a longer string, and leaves an occurrence of \<^verbatim>\<open>/api\<close> that is not at
  position 0 where it is, as in \<^verbatim>\<open>/foo/api/bar\<close>.
\<close>

theorem rewrite_suffix:
  "suffix (rewrite api_options p) p
    \<and> (\<not> prefix ''/api'' p \<longrightarrow> rewrite api_options p = p)
    \<and> (prefix ''/api'' p \<longrightarrow> p = ''/api'' @ rewrite api_options p \<and> rewrite api_options p = drop 4 p)
    \<and> length (rewrite api_options p) \<le> length p
    \<and> rewrite api_options ''/foo/api/bar'' = ''/foo/api/bar''"
proof (cases "prefix ''/api'' p")
  case True
  then obtain rest where p: "p = ''/api'' @ rest" ..
  have r: "rewrite api_options p = rest"
    unfolding p by (simp add: rewrite_eq)
  have "suffix rest p"
    unfolding p by (rule suffix_appendI) simp
  with True r p show ?thesis
    by (simp add: rewrite_eq)
next
  case False
  then have "rewrite api_options p = p"
    by (simp add: rewrite_eq)
  with False show ?thesis
    by (simp add: rewrite_eq)
qed

theorem rewrite_suffix_witness:
  "suffix (rewrite api_options ''/api/v1/api'') ''/api/v1/api''
    \<and> prefix ''/api'' ''/api/v1/api''
    \<and> rewrite api_options ''/api/v1/api'' = ''/v1/api''
    \<and> \<not> prefix ''/api'' ''/v1/api''
    \<and> rewrite api_options ''/v1/api'' = ''/v1/api''"
proof -
  have h1: "prefix ''/api'' ''/api/v1/api''" by simp
  have h2: "\<not> prefix ''/api'' ''/v1/api''" by simp
  note matched = rewrite_suffix [of "''/api/v1/api''"]
    and unmatched = rewrite_suffix [of "''/v1/api''"]
  from matched have s: "suffix (rewrite api_options ''/api/v1/api'') ''/api/v1/api''"
    by (rule conjunct1)
  from matched h1 have r1: "rewrite api_options ''/api/v1/api'' = ''/v1/api''"
    by simp
  from unmatched h2 have r2: "rewrite api_options ''/v1/api'' = ''/v1/api''"
    by blast
  from s h1 r1 h2 r2 show ?thesis
    by blast
qed

section \<open>Matching by raw prefix\<close>

text \<open>
  C10. Matching is a test on the raw string, not on path segments: \<^verbatim>\<open>/apifoo\<close>, where
  \<^verbatim>\<open>/api\<close> is followed neither by \<^verbatim>\<open>/\<close> nor by the end of the string, starts with the
  prefix, so the rule takes it and rewrites it to \<^verbatim>\<open>foo\<close>. So there is a path that
  the rule forwards although it is neither \<^verbatim>\<open>/api\<close> nor under \<^verbatim>\<open>/api/\<close>.
\<close>

theorem raw_prefix_match:
  "prefix ''/api'' ''/apifoo''
    \<and> matches ''/api'' ''/apifoo''
    \<and> rewrite api_options ''/apifoo'' = ''foo''
    \<and> upstream_path server_proxy ''/apifoo'' = Some ''foo''
    \<and> (\<exists>p. p \<noteq> ''/api'' \<and> \<not> prefix ''/api/'' p \<and> upstream_path server_proxy p \<noteq> None)"
proof -
  have m: "matches ''/api'' ''/apifoo''"
    by (simp add: matches_prefix)
  have r: "rewrite api_options ''/apifoo'' = ''foo''"
    by (simp add: rewrite_eq)
  from m r have u: "upstream_path server_proxy ''/apifoo'' = Some ''foo''"
    by (simp add: server_proxy_def)
  have "''/apifoo'' \<noteq> ''/api'' \<and> \<not> prefix ''/api/'' ''/apifoo''
      \<and> upstream_path server_proxy ''/apifoo'' \<noteq> None"
    using u by simp
  then have "\<exists>p. p \<noteq> ''/api'' \<and> \<not> prefix ''/api/'' p \<and> upstream_path server_proxy p \<noteq> None"
    by (rule exI)
  with m r u show ?thesis by simp
qed

end
